theory Spec2Isabelle
  imports Main "HOL-Library.Sublist"
begin

section \<open>Messages and their identity\<close>

text \<open>
  The message classes of \<^verbatim>\<open>langchain_core.messages\<close> that \<^verbatim>\<open>app/graph.py\<close> imports.
  \<open>ToolMessage\<close> is a further subclass of \<^verbatim>\<open>BaseMessage\<close>, one of those the
  \<^verbatim>\<open>isinstance\<close> filter of the summarisation node leaves out.
\<close>

datatype message_class = HumanMessage | AIMessage | SystemMessage | RemoveMessage | ToolMessage

text \<open>
  A message object: its class, its \<^verbatim>\<open>content\<close> and its \<^verbatim>\<open>id\<close>, which is
  \<^verbatim>\<open>Optional[str]\<close> (\<open>None\<close> until one is assigned).
\<close>

record message =
  cls :: message_class
  content :: string
  msg_id :: "string option"

text \<open>A constructor call \<^verbatim>\<open>C(content=t)\<close>: no id is passed, so the id is \<^verbatim>\<open>None\<close>.\<close>

definition new_message :: "message_class \<Rightarrow> string \<Rightarrow> message" where
  "new_message c t = \<lparr>cls = c, content = t, msg_id = None\<rparr>"

text \<open>
  \<^verbatim>\<open>ensure_message_has_id\<close>. The value of \<^verbatim>\<open>str(uuid.uuid4())\<close> is the parameter
  \<open>u\<close>: the function draws it only on the branch that assigns. The attribute is typed
  \<^verbatim>\<open>Optional[str]\<close>, so "missing, \<^verbatim>\<open>None\<close> or not a string" is the case \<open>None\<close>.
\<close>

definition ensure_message_has_id :: "string \<Rightarrow> message \<Rightarrow> message" where
  "ensure_message_has_id u m =
     (case msg_id m of
        None \<Rightarrow> m\<lparr>msg_id := Some u\<rparr>
      | Some i \<Rightarrow> m)"

section \<open>Python strings and slices\<close>

text \<open>The newline character of the Python string literals.\<close>

definition NL :: string where
  "NL = [CHR 0x0A]"

text \<open>\<^verbatim>\<open>sep.join(parts)\<close>.\<close>

fun join :: "string \<Rightarrow> string list \<Rightarrow> string" where
  "join sep [] = []"
| "join sep [p] = p"
| "join sep (p # q # ps) = p @ sep @ join sep (q # ps)"

text \<open>
  A Python string is modelled by its UTF-8 encoding, one \<open>char\<close> for each byte.
  Concatenation, joining and the test for the empty string read the same on the
  encoding; \<^verbatim>\<open>str.strip()\<close> is the one operation of the source that looks at single
  characters. It removes the characters Python counts as white space, here each given
  by its encoding: U+0009 to U+000D, U+001C to U+001F, U+0020, U+0085, U+00A0, U+1680,
  U+2000 to U+200A, U+2028, U+2029, U+202F, U+205F and U+3000.
\<close>

definition whitespace :: "string list" where
  "whitespace =
     [[CHR 0x09], [CHR 0x0A], [CHR 0x0B], [CHR 0x0C], [CHR 0x0D],
      [CHR 0x1C], [CHR 0x1D], [CHR 0x1E], [CHR 0x1F], [CHR 0x20],
      [CHR 0xC2, CHR 0x85], [CHR 0xC2, CHR 0xA0],
      [CHR 0xE1, CHR 0x9A, CHR 0x80],
      [CHR 0xE2, CHR 0x80, CHR 0x80], [CHR 0xE2, CHR 0x80, CHR 0x81],
      [CHR 0xE2, CHR 0x80, CHR 0x82], [CHR 0xE2, CHR 0x80, CHR 0x83],
      [CHR 0xE2, CHR 0x80, CHR 0x84], [CHR 0xE2, CHR 0x80, CHR 0x85],
      [CHR 0xE2, CHR 0x80, CHR 0x86], [CHR 0xE2, CHR 0x80, CHR 0x87],
      [CHR 0xE2, CHR 0x80, CHR 0x88], [CHR 0xE2, CHR 0x80, CHR 0x89],
      [CHR 0xE2, CHR 0x80, CHR 0x8A],
      [CHR 0xE2, CHR 0x80, CHR 0xA8], [CHR 0xE2, CHR 0x80, CHR 0xA9],
      [CHR 0xE2, CHR 0x80, CHR 0xAF], [CHR 0xE2, CHR 0x81, CHR 0x9F],
      [CHR 0xE3, CHR 0x80, CHR 0x80]]"

text \<open>
  The number of bytes of the white-space character a text starts with, or ends with;
  0 when it starts, or ends, with none.
\<close>

definition ws_prefix :: "string \<Rightarrow> nat" where
  "ws_prefix t = (case find (\<lambda>w. prefix w t) whitespace of None \<Rightarrow> 0 | Some w \<Rightarrow> length w)"

definition ws_suffix :: "string \<Rightarrow> nat" where
  "ws_suffix t = (case find (\<lambda>w. suffix w t) whitespace of None \<Rightarrow> 0 | Some w \<Rightarrow> length w)"

text \<open>
  The two loops of \<^verbatim>\<open>str.strip()\<close>: white space is skipped from the left end, then
  from the right end of what is left.
\<close>

function lstrip :: "string \<Rightarrow> string" where
  "lstrip t = (if t \<noteq> [] \<and> 0 < ws_prefix t then lstrip (drop (ws_prefix t) t) else t)"
  by pat_completeness auto
termination
  by (relation "measure length") auto

function rstrip :: "string \<Rightarrow> string" where
  "rstrip t =
     (if t \<noteq> [] \<and> 0 < ws_suffix t then rstrip (take (length t - ws_suffix t) t) else t)"
  by pat_completeness auto
termination
  by (relation "measure length") auto

definition strip :: "string \<Rightarrow> string" where
  "strip t = rstrip (lstrip t)"

declare lstrip.simps [simp del]

declare rstrip.simps [simp del]

text \<open>
  The slice \<^verbatim>\<open>xs[:n]\<close> for an integer \<open>n\<close>: a negative bound counts from the end
  and is clamped at the start of the list.
\<close>

definition slice_to :: "'a list \<Rightarrow> int \<Rightarrow> 'a list" where
  "slice_to xs n = (if n < 0 then take (nat (int (length xs) + n)) xs else take (nat n) xs)"

section \<open>The graph state and its reducers\<close>

text \<open>
  \<^verbatim>\<open>AgentState\<close>: the \<^verbatim>\<open>messages\<close> channel of \<^verbatim>\<open>MessagesState\<close>, the \<^verbatim>\<open>summary\<close>
  channel, which holds no value until one is written (the nodes read it with
  \<^verbatim>\<open>state.get("summary", "")\<close>), and the counter, whose channel starts at \<^verbatim>\<open>int()\<close>.
\<close>

record AgentState =
  messages :: "message list"
  summary :: "string option"
  messages_since_last_summary :: int

text \<open>The channels of a thread that has no checkpoint yet.\<close>

definition empty_channels :: AgentState where
  "empty_channels = \<lparr>messages = [], summary = None, messages_since_last_summary = 0\<rparr>"

text \<open>
  The dictionary a node returns (or a caller passes as input): a list for
  \<^verbatim>\<open>messages\<close> and, when the key is present, a value for each of the other two.
\<close>

record state_update =
  upd_messages :: "message list"
  upd_summary :: "string option"
  upd_counter :: "int option"

text \<open>
  What can go wrong in a run of the graph. \<open>CompletionFailed\<close> and
  \<open>CompactionFailed\<close> are an exception of \<^verbatim>\<open>llm.invoke\<close> in the reply node and in
  the summarisation node; \<open>ValueError\<close> is raised by the message reducer for a delete
  directive whose id is not in the list.
\<close>

datatype error = CompletionFailed | CompactionFailed | ValueError

text \<open>The completion client: \<^verbatim>\<open>llm.invoke\<close>, with \<open>None\<close> for a raised exception.\<close>

type_synonym completion_client = "message list \<Rightarrow> message option"

subsection \<open>The reducer of the \<^verbatim>\<open>messages\<close> channel\<close>

text \<open>
  \<^verbatim>\<open>MessagesState\<close> declares \<^verbatim>\<open>messages: Annotated[list, add_messages]\<close>. The reducer
  first gives an id to every message that has none (\<open>uuid4 k\<close> is the \<open>k\<close>-th id it
  draws), then merges the update into the list by id. (A later version of the library
  reserves one id for a directive that clears the whole list; it is not modelled.)
\<close>

fun assign_ids :: "(nat \<Rightarrow> string) \<Rightarrow> nat \<Rightarrow> message list \<Rightarrow> message list" where
  "assign_ids uuid4 k [] = []"
| "assign_ids uuid4 k (m # ms) =
     (case msg_id m of
        None \<Rightarrow> m\<lparr>msg_id := Some (uuid4 k)\<rparr> # assign_ids uuid4 (Suc k) ms
      | Some i \<Rightarrow> m # assign_ids uuid4 k ms)"

text \<open>\<^verbatim>\<open>{m.id: i for i, m in enumerate(merged)}\<close>: a later entry overrides an earlier one.\<close>

definition index_by_id :: "message list \<Rightarrow> (string option \<rightharpoonup> nat)" where
  "index_by_id ms = map_of (rev (zip (map msg_id ms) [0..<length ms]))"

text \<open>
  The merge loop over the update. A message whose id is known replaces the message at
  that index, unless it is a delete directive, which marks the id for removal; a
  message whose id is new is appended, and a delete directive for it raises.
\<close>

fun merge_loop ::
  "(string option \<rightharpoonup> nat) \<Rightarrow> message list \<Rightarrow> string option set \<Rightarrow> message list
     \<Rightarrow> error + (message list \<times> string option set)" where
  "merge_loop merged_by_id merged ids_to_remove [] = Inr (merged, ids_to_remove)"
| "merge_loop merged_by_id merged ids_to_remove (m # right) =
     (case merged_by_id (msg_id m) of
        Some existing_idx \<Rightarrow>
          (if cls m = RemoveMessage
           then merge_loop merged_by_id merged (insert (msg_id m) ids_to_remove) right
           else merge_loop merged_by_id (merged[existing_idx := m])
                  (ids_to_remove - {msg_id m}) right)
      | None \<Rightarrow>
          (if cls m = RemoveMessage then Inl ValueError
           else merge_loop (merged_by_id(msg_id m \<mapsto> length merged)) (merged @ [m])
                  ids_to_remove right))"

definition add_messages ::
  "(nat \<Rightarrow> string) \<Rightarrow> message list \<Rightarrow> message list \<Rightarrow> error + message list" where
  "add_messages uuid4 left right =
     (let left1 = assign_ids uuid4 0 left;
          right1 = assign_ids uuid4 (length (filter (\<lambda>m. msg_id m = None) left)) right
      in case merge_loop (index_by_id left1) left1 {} right1 of
           Inl e \<Rightarrow> Inl e
         | Inr (merged, ids_to_remove) \<Rightarrow> Inr [m \<leftarrow> merged. msg_id m \<notin> ids_to_remove])"

subsection \<open>Applying an update to the channels\<close>

text \<open>
  Each channel combines its old value with the written one by its reducer:
  \<^verbatim>\<open>add_messages\<close> for \<^verbatim>\<open>messages\<close>, overwriting for \<^verbatim>\<open>summary\<close> (no reducer is
  declared), and \<^verbatim>\<open>operator.add\<close> for \<^verbatim>\<open>messages_since_last_summary\<close>, as declared by
  \<^verbatim>\<open>Annotated[int, operator.add]\<close>.
\<close>

definition apply_writes ::
  "(nat \<Rightarrow> string) \<Rightarrow> AgentState \<Rightarrow> state_update \<Rightarrow> error + AgentState" where
  "apply_writes uuid4 s u =
     (case add_messages uuid4 (messages s) (upd_messages u) of
        Inl e \<Rightarrow> Inl e
      | Inr ms \<Rightarrow>
          Inr \<lparr>messages = ms,
               summary = (case upd_summary u of None \<Rightarrow> summary s | Some t \<Rightarrow> Some t),
               messages_since_last_summary =
                 (case upd_counter u of
                    None \<Rightarrow> messages_since_last_summary s
                  | Some n \<Rightarrow> messages_since_last_summary s + n)\<rparr>)"

section \<open>The nodes of the graph\<close>

definition MESSAGES_TO_KEEP_AFTER_SUMMARY :: int where
  "MESSAGES_TO_KEEP_AFTER_SUMMARY = 2"

definition NEW_MESSAGES_THRESHOLD_FOR_SUMMARY :: int where
  "NEW_MESSAGES_THRESHOLD_FOR_SUMMARY = 10"

text \<open>\<^verbatim>\<open>state.get("summary", "")\<close>.\<close>

definition get_summary :: "AgentState \<Rightarrow> string" where
  "get_summary s = (case summary s of None \<Rightarrow> [] | Some t \<Rightarrow> t)"

subsection \<open>\<^verbatim>\<open>call_llm_node\<close>\<close>

text \<open>
  The list handed to \<^verbatim>\<open>llm.invoke\<close>. \<open>u_summary\<close> and \<open>u_hello\<close> are the ids drawn
  for the two messages the node may build.
\<close>

definition messages_to_send_to_llm :: "string \<Rightarrow> string \<Rightarrow> AgentState \<Rightarrow> message list" where
  "messages_to_send_to_llm u_summary u_hello s =
     (let to_send0 =
            (if get_summary s \<noteq> []
             then [ensure_message_has_id u_summary
                     (new_message SystemMessage
                        (''This is a summary of the conversation so far: '' @ get_summary s))]
             else []);
          to_send1 = to_send0 @ messages s
      in if to_send1 = []
         then to_send1 @ [ensure_message_has_id u_hello (new_message HumanMessage ''Hello.'')]
         else to_send1)"

definition call_llm_node ::
  "completion_client \<Rightarrow> string \<Rightarrow> string \<Rightarrow> string \<Rightarrow> AgentState \<Rightarrow> error + state_update" where
  "call_llm_node llm u_summary u_hello u_response s =
     (case llm (messages_to_send_to_llm u_summary u_hello s) of
        None \<Rightarrow> Inl CompletionFailed
      | Some response \<Rightarrow>
          Inr \<lparr>upd_messages = [ensure_message_has_id u_response response],
               upd_summary = None,
               upd_counter = Some 1\<rparr>)"

subsection \<open>\<^verbatim>\<open>should_summarize_node\<close>\<close>

definition should_summarize_node :: "AgentState \<Rightarrow> string" where
  "should_summarize_node s =
     (if messages_since_last_summary s \<ge> NEW_MESSAGES_THRESHOLD_FOR_SUMMARY
      then ''summarize_conversation_node''
      else ''__end__'')"

subsection \<open>\<^verbatim>\<open>summarize_conversation_node\<close>\<close>

fun class_name :: "message_class \<Rightarrow> string" where
  "class_name HumanMessage = ''HumanMessage''"
| "class_name AIMessage = ''AIMessage''"
| "class_name SystemMessage = ''SystemMessage''"
| "class_name RemoveMessage = ''RemoveMessage''"
| "class_name ToolMessage = ''ToolMessage''"

definition messages_to_summarize_content_from :: "AgentState \<Rightarrow> message list" where
  "messages_to_summarize_content_from s =
     [m \<leftarrow> messages s. cls m \<in> {HumanMessage, AIMessage, SystemMessage}]"

definition prompt_header :: "AgentState \<Rightarrow> string" where
  "prompt_header s =
     (if get_summary s \<noteq> []
      then ''Please extend this summary with the new conversation excerpts below.'' @ NL
      else ''Please create a concise summary of the following conversation:'' @ NL)"

definition formatted_messages :: "AgentState \<Rightarrow> string" where
  "formatted_messages s =
     join NL (map (\<lambda>m. class_name (cls m) @ '': '' @ content m)
                (messages_to_summarize_content_from s))"

definition full_prompt :: "AgentState \<Rightarrow> string" where
  "full_prompt s =
     (let full_prompt0 = prompt_header s @ formatted_messages s
      in if get_summary s \<noteq> []
         then ''Previous Summary:'' @ NL @ get_summary s @ NL @ NL @ full_prompt0
         else full_prompt0)"

definition messages_to_remove :: "AgentState \<Rightarrow> message list" where
  "messages_to_remove s =
     (let num_to_remove =
            int (length (messages_to_summarize_content_from s)) - MESSAGES_TO_KEEP_AFTER_SUMMARY
      in slice_to (messages_to_summarize_content_from s) num_to_remove)"

text \<open>The truth value of \<^verbatim>\<open>m.id\<close>: an id that is neither \<^verbatim>\<open>None\<close> nor the empty string.\<close>

definition has_id :: "message \<Rightarrow> bool" where
  "has_id m = (case msg_id m of None \<Rightarrow> False | Some i \<Rightarrow> i \<noteq> [])"

definition delete_directives :: "AgentState \<Rightarrow> message list" where
  "delete_directives s =
     map (\<lambda>m. \<lparr>cls = RemoveMessage, content = [], msg_id = msg_id m\<rparr>)
       [m \<leftarrow> messages_to_remove s. has_id m]"

definition summarize_conversation_node ::
  "completion_client \<Rightarrow> string \<Rightarrow> AgentState \<Rightarrow> error + state_update" where
  "summarize_conversation_node llm u_prompt s =
     (case llm [ensure_message_has_id u_prompt (new_message HumanMessage (full_prompt s))] of
        None \<Rightarrow> Inl CompactionFailed
      | Some summary_llm_response \<Rightarrow>
          (let new_summary = strip (content summary_llm_response);
               new_counter_value =
                 int (length (messages s)) - int (length (delete_directives s))
           in Inr \<lparr>upd_messages = delete_directives s,
                   upd_summary = Some new_summary,
                   upd_counter = Some new_counter_value\<rparr>))"

subsection \<open>The invariant of the ledger\<close>

text \<open>
  Every message of the ledger carries a non-empty id, and no two messages share one.
  The reducer keeps it: it assigns missing ids and merges by id.
\<close>

definition ledger_ok :: "message list \<Rightarrow> bool" where
  "ledger_ok ms = ((\<forall>m\<in>set ms. has_id m) \<and> distinct (map msg_id ms))"

section \<open>The compiled graph and its checkpoints\<close>

text \<open>
  The ids that \<^verbatim>\<open>uuid.uuid4()\<close> returns during one request, one field for each place
  that draws: the thread id and the system message of a new session, the human message
  of a chat turn, the summary message, the greeting and the response of the reply
  node, the prompt message of the summarisation node, and \<open>d_reducer n k\<close> for the
  \<open>k\<close>-th id drawn by the \<open>n\<close>-th run of the message reducer.
\<close>

record uuid_draws =
  d_thread :: string
  d_system :: string
  d_human :: string
  d_summary :: string
  d_hello :: string
  d_response :: string
  d_prompt :: string
  d_reducer :: "nat \<Rightarrow> nat \<Rightarrow> string"

text \<open>
  The result of one run of the graph: the exception that ended it, if any; the updates
  it streamed, each with the name of the node that returned it; and the state of the
  last checkpoint it wrote.
\<close>

record run_result =
  outcome :: "error option"
  events :: "(string \<times> state_update) list"
  checkpoint :: AgentState

text \<open>
  \<^verbatim>\<open>graph_app.stream(inputs, config)\<close> for the graph of \<^verbatim>\<open>create_graph\<close>, compiled with
  a checkpointer. The input is written to the channels and checkpointed; the entry
  point \<^verbatim>\<open>llm_caller\<close> runs and its update is applied and checkpointed; the conditional
  edge asks \<^verbatim>\<open>should_summarize_node\<close> and either ends the run or runs
  \<^verbatim>\<open>summarize_conversation_node\<close>, whose update is applied and checkpointed before the
  run ends. An exception in a node ends the run at the checkpoint before that node.
\<close>

definition graph_stream ::
  "completion_client \<Rightarrow> uuid_draws \<Rightarrow> AgentState \<Rightarrow> state_update \<Rightarrow> run_result" where
  "graph_stream llm d s inputs =
     (case apply_writes (d_reducer d 0) s inputs of
        Inl e \<Rightarrow> \<lparr>outcome = Some e, events = [], checkpoint = s\<rparr>
      | Inr s1 \<Rightarrow>
          (case call_llm_node llm (d_summary d) (d_hello d) (d_response d) s1 of
             Inl e \<Rightarrow> \<lparr>outcome = Some e, events = [], checkpoint = s1\<rparr>
           | Inr u1 \<Rightarrow>
               (case apply_writes (d_reducer d 1) s1 u1 of
                  Inl e \<Rightarrow> \<lparr>outcome = Some e, events = [], checkpoint = s1\<rparr>
                | Inr s2 \<Rightarrow>
                    (if should_summarize_node s2 = ''summarize_conversation_node''
                     then
                       (case summarize_conversation_node llm (d_prompt d) s2 of
                          Inl e \<Rightarrow>
                            \<lparr>outcome = Some e, events = [(''llm_caller'', u1)], checkpoint = s2\<rparr>
                        | Inr u2 \<Rightarrow>
                            (case apply_writes (d_reducer d 2) s2 u2 of
                               Inl e \<Rightarrow>
                                 \<lparr>outcome = Some e, events = [(''llm_caller'', u1)],
                                  checkpoint = s2\<rparr>
                             | Inr s3 \<Rightarrow>
                                 \<lparr>outcome = None,
                                  events = [(''llm_caller'', u1),
                                            (''summarize_conversation_node'', u2)],
                                  checkpoint = s3\<rparr>))
                     else \<lparr>outcome = None, events = [(''llm_caller'', u1)],
                           checkpoint = s2\<rparr>))))"

text \<open>The checkpoint store: the latest state of each thread that has one.\<close>

type_synonym checkpoints = "string \<rightharpoonup> AgentState"

definition get_state :: "checkpoints \<Rightarrow> string \<Rightarrow> AgentState option" where
  "get_state db thread_id = db thread_id"

text \<open>
  \<^verbatim>\<open>graph_app.update_state(config, values)\<close>: the values are written through the
  reducers onto the latest state of the thread, or onto empty channels.
\<close>

definition update_state ::
  "(nat \<Rightarrow> string) \<Rightarrow> checkpoints \<Rightarrow> string \<Rightarrow> state_update \<Rightarrow> error + checkpoints" where
  "update_state uuid4 db thread_id values =
     (case apply_writes uuid4
             (case db thread_id of None \<Rightarrow> empty_channels | Some s \<Rightarrow> s) values of
        Inl e \<Rightarrow> Inl e
      | Inr s' \<Rightarrow> Inr (db(thread_id \<mapsto> s')))"

section \<open>The endpoints of \<^verbatim>\<open>app/main.py\<close>\<close>

definition DEFAULT_SYSTEM_PROMPT :: string where
  "DEFAULT_SYSTEM_PROMPT =
     ''You are a helpful AI assistant. Be concise and clear in your responses.''"

definition new_assistant ::
  "uuid_draws \<Rightarrow> checkpoints \<Rightarrow> string \<Rightarrow> error + (string \<times> checkpoints)" where
  "new_assistant d db system_prompt =
     (let thread_id = d_thread d;
          system_message =
            ensure_message_has_id (d_system d) (new_message SystemMessage system_prompt);
          initial_state =
            \<lparr>upd_messages = [system_message], upd_summary = Some [], upd_counter = Some 0\<rparr>
      in case update_state (d_reducer d 0) db thread_id initial_state of
           Inl e \<Rightarrow> Inl e
         | Inr db' \<Rightarrow> Inr (thread_id, db'))"

definition new_session :: "uuid_draws \<Rightarrow> checkpoints \<Rightarrow> error + (string \<times> checkpoints)" where
  "new_session d db =
     (let thread_id = d_thread d;
          system_message =
            ensure_message_has_id (d_system d) (new_message SystemMessage DEFAULT_SYSTEM_PROMPT);
          initial_state =
            \<lparr>upd_messages = [system_message], upd_summary = Some [], upd_counter = Some 0\<rparr>
      in case update_state (d_reducer d 0) db thread_id initial_state of
           Inl e \<Rightarrow> Inl e
         | Inr db' \<Rightarrow> Inr (thread_id, db'))"

text \<open>
  The input of a chat turn, as the chat endpoint and the loop of the terminal chat
  build it: the human message with the text of the user, given an id, as the only
  entry of \<^verbatim>\<open>{"messages": [human_message]}\<close>. The terminal chat hands it to
  \<^verbatim>\<open>graph_app.stream\<close>.
\<close>

definition chat_inputs :: "uuid_draws \<Rightarrow> string \<Rightarrow> state_update" where
  "chat_inputs d user_input =
     (let human_message =
            ensure_message_has_id (d_human d) (new_message HumanMessage user_input)
      in \<lparr>upd_messages = [human_message], upd_summary = None, upd_counter = None\<rparr>)"

section \<open>A concrete session\<close>

text \<open>
  Values for the scenarios below: the ids drawn, a client that answers every call with
  the same reply, a client that fails, and a thread whose ledger holds the system
  prompt and one exchange, with a given summary and counter.
\<close>

definition scenario_draws :: uuid_draws where
  "scenario_draws =
     \<lparr>d_thread = ''t-1'', d_system = ''m-sys'', d_human = ''m-h'', d_summary = ''m-sum'',
      d_hello = ''m-hello'', d_response = ''m-r'', d_prompt = ''m-p'',
      d_reducer = (\<lambda>n k. ''m-x'')\<rparr>"

definition scenario_llm :: completion_client where
  "scenario_llm ctx = Some \<lparr>cls = AIMessage, content = '' ok '', msg_id = None\<rparr>"

definition failing_llm :: completion_client where
  "failing_llm ctx = None"

definition scenario_ledger :: "message list" where
  "scenario_ledger =
     [\<lparr>cls = SystemMessage, content = ''You are terse.'', msg_id = Some ''m-sys''\<rparr>,
      \<lparr>cls = HumanMessage, content = ''Hi'', msg_id = Some ''m-1''\<rparr>,
      \<lparr>cls = AIMessage, content = ''Hello'', msg_id = Some ''m-2''\<rparr>]"

definition scenario_human :: message where
  "scenario_human = \<lparr>cls = HumanMessage, content = ''More'', msg_id = Some ''m-h''\<rparr>"

definition scenario_answer :: message where
  "scenario_answer = \<lparr>cls = AIMessage, content = '' ok '', msg_id = Some ''m-r''\<rparr>"

definition scenario_state :: "string \<Rightarrow> int \<Rightarrow> AgentState" where
  "scenario_state t n =
     \<lparr>messages = scenario_ledger, summary = Some t, messages_since_last_summary = n\<rparr>"

definition scenario_inputs :: state_update where
  "scenario_inputs = \<lparr>upd_messages = [scenario_human], upd_summary = None, upd_counter = None\<rparr>"

definition scenario_after_input :: "string \<Rightarrow> int \<Rightarrow> AgentState" where
  "scenario_after_input t n =
     \<lparr>messages = scenario_ledger @ [scenario_human], summary = Some t,
      messages_since_last_summary = n\<rparr>"

definition scenario_reply :: state_update where
  "scenario_reply =
     \<lparr>upd_messages = [scenario_answer], upd_summary = None, upd_counter = Some 1\<rparr>"

definition scenario_after_reply :: "string \<Rightarrow> int \<Rightarrow> AgentState" where
  "scenario_after_reply t n =
     \<lparr>messages = scenario_ledger @ [scenario_human, scenario_answer], summary = Some t,
      messages_since_last_summary = n\<rparr>"

definition scenario_compaction :: state_update where
  "scenario_compaction =
     \<lparr>upd_messages =
        [\<lparr>cls = RemoveMessage, content = [], msg_id = Some ''m-sys''\<rparr>,
         \<lparr>cls = RemoveMessage, content = [], msg_id = Some ''m-1''\<rparr>,
         \<lparr>cls = RemoveMessage, content = [], msg_id = Some ''m-2''\<rparr>],
      upd_summary = Some ''ok'', upd_counter = Some 2\<rparr>"

section \<open>Identity assignment\<close>

text \<open>
  Claim C7. The id-assignment operation assigns the fresh id only to a message that
  carries no string id, leaving class and content alone; a message that carries an id
  is returned unchanged; and applying the operation to its own output, whatever fresh
  id the second call has at hand, changes nothing.
\<close>

theorem ensure_message_has_id_idempotent:
  "(msg_id m = None \<longrightarrow> ensure_message_has_id u m = m\<lparr>msg_id := Some u\<rparr>)
   \<and> (msg_id m \<noteq> None \<longrightarrow> ensure_message_has_id u m = m)
   \<and> ensure_message_has_id u' (ensure_message_has_id u m) = ensure_message_has_id u m"
  by (cases "msg_id m") (simp_all add: ensure_message_has_id_def)

theorem ensure_message_has_id_idempotent_witness:
  "msg_id (new_message HumanMessage ''hi'') = None
   \<and> ensure_message_has_id ''u1'' (new_message HumanMessage ''hi'')
       = \<lparr>cls = HumanMessage, content = ''hi'', msg_id = Some ''u1''\<rparr>
   \<and> msg_id \<lparr>cls = AIMessage, content = ''yo'', msg_id = Some ''run-7''\<rparr> \<noteq> None
   \<and> ensure_message_has_id ''u1'' \<lparr>cls = AIMessage, content = ''yo'', msg_id = Some ''run-7''\<rparr>
       = \<lparr>cls = AIMessage, content = ''yo'', msg_id = Some ''run-7''\<rparr>
   \<and> ensure_message_has_id ''u2'' (ensure_message_has_id ''u1'' (new_message HumanMessage ''hi''))
       = ensure_message_has_id ''u1'' (new_message HumanMessage ''hi'')"
  using ensure_message_has_id_idempotent [of "new_message HumanMessage ''hi''" "''u1''" "''u2''"]
    ensure_message_has_id_idempotent
      [of "\<lparr>cls = AIMessage, content = ''yo'', msg_id = Some ''run-7''\<rparr>" "''u1''" "''u2''"]
  by (simp add: new_message_def ensure_message_has_id_def)

section \<open>Facts about the reducers and the nodes\<close>

lemma assign_ids_id:
  "\<forall>m\<in>set ms. msg_id m \<noteq> None \<Longrightarrow> assign_ids uuid4 k ms = ms"
  by (induction ms arbitrary: k) auto

lemma index_by_id_None_iff:
  "index_by_id ms i = None \<longleftrightarrow> i \<notin> msg_id ` set ms"
proof -
  have "fst ` set (rev (zip (map msg_id ms) [0..<length ms])) = set (map msg_id ms)"
    by (metis length_map map_fst_zip diff_zero length_upt set_map set_rev)
  then show ?thesis
    by (simp add: index_by_id_def map_of_eq_None_iff)
qed

lemma index_by_id_Nil: "index_by_id [] = Map.empty"
  by (simp add: index_by_id_def)

lemma merge_loop_removes:
  "\<forall>m\<in>set right. cls m = RemoveMessage \<and> merged_by_id (msg_id m) \<noteq> None \<Longrightarrow>
   merge_loop merged_by_id merged ids_to_remove right
     = Inr (merged, ids_to_remove \<union> msg_id ` set right)"
  by (induction right arbitrary: ids_to_remove) auto

lemma add_messages_removes:
  assumes "\<forall>m\<in>set left. msg_id m \<noteq> None"
    and "\<forall>m\<in>set right. cls m = RemoveMessage \<and> msg_id m \<noteq> None \<and> msg_id m \<in> msg_id ` set left"
  shows "add_messages uuid4 left right = Inr [m \<leftarrow> left. msg_id m \<notin> msg_id ` set right]"
proof -
  have l: "assign_ids uuid4 0 left = left"
    using assms(1) by (rule assign_ids_id)
  have r: "assign_ids uuid4 k right = right" for k
    using assms(2) by (intro assign_ids_id) blast
  have "\<forall>m\<in>set right. cls m = RemoveMessage \<and> index_by_id left (msg_id m) \<noteq> None"
    using assms(2) by (simp add: index_by_id_None_iff)
  then have "merge_loop (index_by_id left) left {} right = Inr (left, {} \<union> msg_id ` set right)"
    by (rule merge_loop_removes)
  then show ?thesis
    by (simp add: add_messages_def l r)
qed

lemma add_messages_single:
  assumes "msg_id m \<noteq> None" and "cls m \<noteq> RemoveMessage"
  shows "\<exists>ms. add_messages uuid4 left [m] = Inr ms \<and> ms \<noteq> []"
proof -
  obtain i where i: "msg_id m = Some i"
    using assms(1) by blast
  define left1 where "left1 = assign_ids uuid4 0 left"
  show ?thesis
  proof (cases "index_by_id left1 (Some i)")
    case None
    then show ?thesis
      using assms(2) i by (simp add: add_messages_def left1_def [symmetric])
  next
    case (Some k)
    then have "left1 \<noteq> []"
      by (auto simp: index_by_id_Nil)
    then show ?thesis
      using assms(2) i Some by (simp add: add_messages_def left1_def [symmetric])
  qed
qed

lemma add_messages_append_fresh:
  assumes "\<forall>x\<in>set left. msg_id x \<noteq> None"
    and "msg_id m \<noteq> None" and "msg_id m \<notin> msg_id ` set left" and "cls m \<noteq> RemoveMessage"
  shows "add_messages uuid4 left [m] = Inr (left @ [m])"
proof -
  have l: "assign_ids uuid4 0 left = left"
    using assms(1) by (rule assign_ids_id)
  obtain i where i: "msg_id m = Some i"
    using assms(2) by blast
  have "index_by_id left (Some i) = None"
    using assms(3) i by (simp add: index_by_id_None_iff)
  then show ?thesis
    using assms(4) i by (simp add: add_messages_def l)
qed

lemma add_messages_Nil_single:
  "msg_id m \<noteq> None \<Longrightarrow> cls m \<noteq> RemoveMessage \<Longrightarrow> add_messages uuid4 [] [m] = Inr [m]"
  using add_messages_append_fresh [of "[]" m uuid4] by simp


lemma apply_writes_channels:
  assumes "apply_writes uuid4 s u = Inr s'"
  shows "add_messages uuid4 (messages s) (upd_messages u) = Inr (messages s')"
    and "summary s' = (case upd_summary u of None \<Rightarrow> summary s | Some t \<Rightarrow> Some t)"
    and "messages_since_last_summary s' =
           (case upd_counter u of
              None \<Rightarrow> messages_since_last_summary s
            | Some n \<Rightarrow> messages_since_last_summary s + n)"
  using assms by (auto simp: apply_writes_def split: sum.splits)

lemma call_llm_node_Inr:
  assumes "call_llm_node llm u1 u2 u3 s = Inr u"
  shows "\<exists>response. llm (messages_to_send_to_llm u1 u2 s) = Some response
           \<and> u = \<lparr>upd_messages = [ensure_message_has_id u3 response], upd_summary = None,
                   upd_counter = Some 1\<rparr>"
  using assms by (auto simp: call_llm_node_def split: option.splits)

lemma ensure_message_has_id_fields:
  "msg_id (ensure_message_has_id u m) \<noteq> None"
  "cls (ensure_message_has_id u m) = cls m"
  "content (ensure_message_has_id u m) = content m"
  by (simp_all add: ensure_message_has_id_def split: option.splits)

lemma graph_stream_ended_after_reply:
  assumes "outcome (graph_stream llm d s inputs) = None"
    and "map fst (events (graph_stream llm d s inputs)) = [''llm_caller'']"
  shows "\<exists>s1 u1. apply_writes (d_reducer d 0) s inputs = Inr s1
           \<and> call_llm_node llm (d_summary d) (d_hello d) (d_response d) s1 = Inr u1
           \<and> apply_writes (d_reducer d 1) s1 u1 = Inr (checkpoint (graph_stream llm d s inputs))"
  using assms by (auto simp: graph_stream_def split: sum.splits if_splits)

lemma apply_writes_input_nonempty:
  assumes "apply_writes uuid4 s0 \<lparr>upd_messages = [h], upd_summary = None, upd_counter = None\<rparr> = Inr s"
    and "msg_id h \<noteq> None" and "cls h \<noteq> RemoveMessage"
  shows "messages s \<noteq> []"
  using apply_writes_channels(1) [OF assms(1)] add_messages_single [OF assms(2,3), of uuid4 "messages s0"]
  by auto

lemma whitespace_nonempty: "w \<in> set whitespace \<Longrightarrow> w \<noteq> []"
  by (auto simp: whitespace_def)

lemma ws_prefix_0_iff: "ws_prefix t = 0 \<longleftrightarrow> (\<forall>w\<in>set whitespace. \<not> prefix w t)"
proof (cases "find (\<lambda>w. prefix w t) whitespace")
  case None
  then have "\<forall>w\<in>set whitespace. \<not> prefix w t"
    by (simp add: find_None_iff)
  then show ?thesis
    using None by (simp add: ws_prefix_def)
next
  case (Some w)
  then have "w \<in> set whitespace" and "prefix w t"
    by (auto simp: find_Some_iff)
  then show ?thesis
    using Some whitespace_nonempty by (auto simp: ws_prefix_def)
qed

lemma ws_suffix_0_iff: "ws_suffix t = 0 \<longleftrightarrow> (\<forall>w\<in>set whitespace. \<not> suffix w t)"
proof (cases "find (\<lambda>w. suffix w t) whitespace")
  case None
  then have "\<forall>w\<in>set whitespace. \<not> suffix w t"
    by (simp add: find_None_iff)
  then show ?thesis
    using None by (simp add: ws_suffix_def)
next
  case (Some w)
  then have "w \<in> set whitespace" and "suffix w t"
    by (auto simp: find_Some_iff)
  then show ?thesis
    using Some whitespace_nonempty by (auto simp: ws_suffix_def)
qed

lemma ws_prefix_split:
  assumes "0 < ws_prefix t"
  shows "\<exists>w\<in>set whitespace. t = w @ drop (ws_prefix t) t"
proof -
  obtain w where w: "find (\<lambda>w. prefix w t) whitespace = Some w"
    using assms by (auto simp: ws_prefix_def split: option.splits)
  then have "w \<in> set whitespace" and "prefix w t"
    by (auto simp: find_Some_iff)
  then show ?thesis
    using w by (auto simp: ws_prefix_def prefix_def)
qed

lemma ws_suffix_split:
  assumes "0 < ws_suffix t"
  shows "\<exists>w\<in>set whitespace. t = take (length t - ws_suffix t) t @ w"
proof -
  obtain w where w: "find (\<lambda>w. suffix w t) whitespace = Some w"
    using assms by (auto simp: ws_suffix_def split: option.splits)
  then have "w \<in> set whitespace" and "suffix w t"
    by (auto simp: find_Some_iff)
  then show ?thesis
    using w by (auto simp: ws_suffix_def suffix_def)
qed

lemma lstrip_decomp: "\<exists>ws. set ws \<subseteq> set whitespace \<and> t = concat ws @ lstrip t"
proof (induction t rule: lstrip.induct)
  case (1 t)
  show ?case
  proof (cases "t \<noteq> [] \<and> 0 < ws_prefix t")
    case True
    then obtain ws where ws: "set ws \<subseteq> set whitespace"
      and d: "drop (ws_prefix t) t = concat ws @ lstrip (drop (ws_prefix t) t)"
      using "1.IH" by blast
    obtain w where w: "w \<in> set whitespace" and t: "t = w @ drop (ws_prefix t) t"
      using True ws_prefix_split by blast
    have l: "lstrip t = lstrip (drop (ws_prefix t) t)"
      using True by (subst lstrip.simps) simp
    have "t = concat (w # ws) @ lstrip t"
      using t d l by (metis append.assoc concat.simps(2))
    moreover have "set (w # ws) \<subseteq> set whitespace"
      using w ws by simp
    ultimately show ?thesis
      by blast
  next
    case False
    then have "lstrip t = t"
      by (subst lstrip.simps) auto
    then have "set [] \<subseteq> set whitespace \<and> t = concat [] @ lstrip t"
      by simp
    then show ?thesis
      by blast
  qed
qed

lemma rstrip_decomp: "\<exists>ws. set ws \<subseteq> set whitespace \<and> t = rstrip t @ concat ws"
proof (induction t rule: rstrip.induct)
  case (1 t)
  show ?case
  proof (cases "t \<noteq> [] \<and> 0 < ws_suffix t")
    case True
    define t' where "t' = take (length t - ws_suffix t) t"
    obtain ws where ws: "set ws \<subseteq> set whitespace" and d: "t' = rstrip t' @ concat ws"
      using "1.IH" True unfolding t'_def by blast
    obtain w where w: "w \<in> set whitespace" and t: "t = t' @ w"
      using True ws_suffix_split unfolding t'_def by blast
    have l: "rstrip t = rstrip t'"
      using True unfolding t'_def by (subst rstrip.simps) simp
    have "concat (ws @ [w]) = concat ws @ w"
      by simp
    then have "t = rstrip t @ concat (ws @ [w])"
      using t d l by (metis append.assoc)
    moreover have "set (ws @ [w]) \<subseteq> set whitespace"
      using w ws by simp
    ultimately show ?thesis
      by blast
  next
    case False
    then have "rstrip t = t"
      by (subst rstrip.simps) auto
    then have "set [] \<subseteq> set whitespace \<and> t = rstrip t @ concat []"
      by simp
    then show ?thesis
      by blast
  qed
qed

lemma ws_prefix_Nil: "ws_prefix [] = 0"
  using whitespace_nonempty by (auto simp: ws_prefix_0_iff)

lemma ws_suffix_Nil: "ws_suffix [] = 0"
  using whitespace_nonempty by (auto simp: ws_suffix_0_iff)

lemma ws_prefix_lstrip: "ws_prefix (lstrip t) = 0"
proof (induction t rule: lstrip.induct)
  case (1 t)
  show ?case
  proof (cases "t \<noteq> [] \<and> 0 < ws_prefix t")
    case True
    then have "lstrip t = lstrip (drop (ws_prefix t) t)"
      by (subst lstrip.simps) simp
    then show ?thesis
      using "1.IH" True by simp
  next
    case False
    then have "lstrip t = t"
      by (subst lstrip.simps) auto
    then show ?thesis
      using False ws_prefix_Nil by (cases "t = []") auto
  qed
qed

lemma ws_suffix_rstrip: "ws_suffix (rstrip t) = 0"
proof (induction t rule: rstrip.induct)
  case (1 t)
  show ?case
  proof (cases "t \<noteq> [] \<and> 0 < ws_suffix t")
    case True
    then have "rstrip t = rstrip (take (length t - ws_suffix t) t)"
      by (subst rstrip.simps) simp
    then show ?thesis
      using "1.IH" True by simp
  next
    case False
    then have "rstrip t = t"
      by (subst rstrip.simps) auto
    then show ?thesis
      using False ws_suffix_Nil by (cases "t = []") auto
  qed
qed

lemma strip_decomp:
  "\<exists>ws ws'. set ws \<subseteq> set whitespace \<and> set ws' \<subseteq> set whitespace
     \<and> t = concat ws @ strip t @ concat ws'"
proof -
  obtain ws where ws: "set ws \<subseteq> set whitespace" and 1: "t = concat ws @ lstrip t"
    using lstrip_decomp by blast
  obtain ws' where ws': "set ws' \<subseteq> set whitespace"
    and 2: "lstrip t = rstrip (lstrip t) @ concat ws'"
    using rstrip_decomp by blast
  have "t = concat ws @ strip t @ concat ws'"
    using 1 2 by (simp add: strip_def)
  then show ?thesis
    using ws ws' by blast
qed

lemma strip_edges:
  "\<forall>w\<in>set whitespace. \<not> prefix w (strip t) \<and> \<not> suffix w (strip t)"
proof
  fix w assume w: "w \<in> set whitespace"
  obtain ws' where "lstrip t = strip t @ concat ws'"
    using rstrip_decomp [of "lstrip t"] by (auto simp: strip_def)
  then have "prefix (strip t) (lstrip t)"
    by (metis prefixI)
  moreover have "\<not> prefix w (lstrip t)"
    using ws_prefix_lstrip [of t] w by (simp add: ws_prefix_0_iff)
  ultimately have "\<not> prefix w (strip t)"
    using prefix_order.trans by blast
  moreover have "\<not> suffix w (strip t)"
    using ws_suffix_rstrip [of "lstrip t"] w by (simp add: ws_suffix_0_iff strip_def)
  ultimately show "\<not> prefix w (strip t) \<and> \<not> suffix w (strip t)"
    by simp
qed

lemma strip_scenario: "strip '' ok '' = ''ok''"
  by code_simp

lemma messages_to_remove_take:
  "messages_to_remove s
     = take (length (messages_to_summarize_content_from s) - 2)
         (messages_to_summarize_content_from s)"
proof (cases "2 \<le> length (messages_to_summarize_content_from s)")
  case True
  then have "nat (int (length (messages_to_summarize_content_from s)) - 2)
               = length (messages_to_summarize_content_from s) - 2"
    by simp
  then show ?thesis
    using True
    by (simp add: messages_to_remove_def slice_to_def MESSAGES_TO_KEEP_AFTER_SUMMARY_def Let_def)
next
  case False
  then show ?thesis
    by (simp add: messages_to_remove_def slice_to_def MESSAGES_TO_KEEP_AFTER_SUMMARY_def Let_def)
qed

lemma filter_not_in_take:
  assumes "distinct xs"
  shows "[x \<leftarrow> xs. x \<notin> set (take k xs)] = drop k xs"
proof -
  have d: "set (take k xs) \<inter> set (drop k xs) = {}"
    using assms by (rule set_take_disj_set_drop_if_distinct) simp
  have a: "[x \<leftarrow> take k xs. x \<notin> set (take k xs)] = []"
    by (simp add: filter_empty_conv)
  have b: "[x \<leftarrow> drop k xs. x \<notin> set (take k xs)] = drop k xs"
    using d by (auto simp: filter_id_conv)
  have "[x \<leftarrow> xs. x \<notin> set (take k xs)]
          = [x \<leftarrow> take k xs @ drop k xs. x \<notin> set (take k xs)]"
    by (simp only: append_take_drop_id)
  also have "\<dots> = [x \<leftarrow> take k xs. x \<notin> set (take k xs)]
                      @ [x \<leftarrow> drop k xs. x \<notin> set (take k xs)]"
    by (rule filter_append)
  finally show ?thesis
    by (simp only: a b append_Nil)
qed

lemma summarize_conversation_node_Inr:
  assumes "summarize_conversation_node llm u_prompt s = Inr upd"
  shows "\<exists>response.
           llm [\<lparr>cls = HumanMessage, content = full_prompt s, msg_id = Some u_prompt\<rparr>]
             = Some response
           \<and> upd = \<lparr>upd_messages = delete_directives s,
                     upd_summary = Some (strip (content response)),
                     upd_counter = Some (int (length (messages s))
                                          - int (length (delete_directives s)))\<rparr>"
  using assms
  by (auto simp: summarize_conversation_node_def ensure_message_has_id_def new_message_def
      Let_def split: option.splits)

lemma has_id_msg_id: "has_id m \<Longrightarrow> msg_id m \<noteq> None"
  by (cases "msg_id m") (simp_all add: has_id_def)

lemma compaction_counter_is_added:
  assumes "summarize_conversation_node llm u_prompt s = Inr upd"
    and "apply_writes uuid4 s upd = Inr s'"
  shows "messages_since_last_summary s'
           = messages_since_last_summary s
             + (int (length (messages s)) - int (length (delete_directives s)))"
  using summarize_conversation_node_Inr [OF assms(1)] apply_writes_channels(3) [OF assms(2)]
  by auto

lemma index_by_id_Some:
  assumes "index_by_id ms i = Some k"
  shows "k < length ms \<and> msg_id (ms ! k) = i"
proof -
  have "(i, k) \<in> set (zip (map msg_id ms) [0..<length ms])"
    using assms map_of_SomeD [of "rev (zip (map msg_id ms) [0..<length ms])" i k]
    by (simp add: index_by_id_def)
  then obtain j where "j < length ms" and "map msg_id ms ! j = i" and "[0..<length ms] ! j = k"
    by (auto simp: in_set_zip)
  then show ?thesis
    by simp
qed

lemma add_messages_single_ledger_ok:
  assumes "ledger_ok left" and "has_id m" and "cls m \<noteq> RemoveMessage"
  shows "\<exists>ms. add_messages uuid4 left [m] = Inr ms \<and> ledger_ok ms"
proof -
  have ids: "\<forall>x\<in>set left. msg_id x \<noteq> None"
    using assms(1) by (auto simp: ledger_ok_def dest: has_id_msg_id)
  have l: "assign_ids uuid4 0 left = left"
    using ids by (rule assign_ids_id)
  obtain i where i: "msg_id m = Some i"
    using assms(2) has_id_msg_id by blast
  show ?thesis
  proof (cases "index_by_id left (Some i)")
    case None
    then have "Some i \<notin> msg_id ` set left"
      by (simp add: index_by_id_None_iff)
    then have "ledger_ok (left @ [m])"
      using assms(1,2) i by (auto simp: ledger_ok_def)
    moreover have "add_messages uuid4 left [m] = Inr (left @ [m])"
      using None assms(3) i by (simp add: add_messages_def l)
    ultimately show ?thesis
      by simp
  next
    case (Some k)
    then have k: "k < length left" and "msg_id (left ! k) = Some i"
      using index_by_id_Some by blast+
    then have "map msg_id (left[k := m]) = map msg_id left"
      using i by (simp add: map_update list_update_same_conv)
    moreover have "set (left[k := m]) \<subseteq> insert m (set left)"
      by (rule set_update_subset_insert)
    ultimately have "ledger_ok (left[k := m])"
      using assms(1,2) by (auto simp: ledger_ok_def)
    moreover have "add_messages uuid4 left [m] = Inr (left[k := m])"
      using Some assms(3) i by (simp add: add_messages_def l)
    ultimately show ?thesis
      by simp
  qed
qed

lemma ledger_ok_filter: "ledger_ok ms \<Longrightarrow> ledger_ok (filter P ms)"
  by (auto simp: ledger_ok_def distinct_map_filter)

lemma compaction_ledger:
  assumes "ledger_ok (messages s)"
    and "summarize_conversation_node llm u_prompt s = Inr upd"
  shows "upd_messages upd
           = map (\<lambda>m. \<lparr>cls = RemoveMessage, content = [], msg_id = msg_id m\<rparr>)
               (take (length (messages_to_summarize_content_from s) - 2)
                  (messages_to_summarize_content_from s))
         \<and> (\<exists>s'. apply_writes uuid4 s upd = Inr s'
               \<and> messages s'
                   = [m \<leftarrow> messages s.
                        m \<notin> set (take (length (messages_to_summarize_content_from s) - 2)
                                    (messages_to_summarize_content_from s))])"
proof -
  have ids: "\<forall>m\<in>set (messages s). has_id m"
    and dids: "distinct (map msg_id (messages s))"
    using assms(1) by (simp_all add: ledger_ok_def)
  define summ where "summ = messages_to_summarize_content_from s"
  define T where "T = take (length summ - 2) summ"
  define mk :: "message \<Rightarrow> message" where
    "mk = (\<lambda>m. \<lparr>cls = RemoveMessage, content = [], msg_id = msg_id m\<rparr>)"
  have summ_sub: "set summ \<subseteq> set (messages s)"
    by (auto simp: summ_def messages_to_summarize_content_from_def)
  have T_sub: "set T \<subseteq> set (messages s)"
    using summ_sub by (auto simp: T_def dest: in_set_takeD)
  have "filter has_id T = T"
    using T_sub ids by (auto simp: filter_id_conv)
  then have dd: "delete_directives s = map mk T"
    by (simp add: delete_directives_def messages_to_remove_take mk_def T_def summ_def)
  have u: "upd_messages upd = map mk T"
    using summarize_conversation_node_Inr [OF assms(2)] dd by auto
  have left: "\<forall>m\<in>set (messages s). msg_id m \<noteq> None"
    using ids by (auto dest: has_id_msg_id)
  have right: "\<forall>m\<in>set (map mk T). cls m = RemoveMessage \<and> msg_id m \<noteq> None
                  \<and> msg_id m \<in> msg_id ` set (messages s)"
    using T_sub left by (auto simp: mk_def)
  have inj: "inj_on msg_id (set (messages s))"
    using dids by (simp add: distinct_map)
  have "msg_id ` set (map mk T) = msg_id ` set T"
    by (auto simp: mk_def image_iff)
  moreover have "msg_id m \<in> msg_id ` set T \<longleftrightarrow> m \<in> set T" if "m \<in> set (messages s)" for m
    using that inj T_sub by (auto dest: inj_onD)
  ultimately have f: "[m \<leftarrow> messages s. msg_id m \<notin> msg_id ` set (map mk T)]
                        = [m \<leftarrow> messages s. m \<notin> set T]"
    by (intro filter_cong) auto
  have am: "add_messages uuid4 (messages s) (upd_messages upd)
              = Inr [m \<leftarrow> messages s. m \<notin> set T]"
    using add_messages_removes [OF left right, of uuid4] u f by simp
  define s' where
    "s' = \<lparr>messages = [m \<leftarrow> messages s. m \<notin> set T],
           summary = (case upd_summary upd of None \<Rightarrow> summary s | Some t \<Rightarrow> Some t),
           messages_since_last_summary =
             (case upd_counter upd of
                None \<Rightarrow> messages_since_last_summary s
              | Some n \<Rightarrow> messages_since_last_summary s + n)\<rparr>"
  have aw: "apply_writes uuid4 s upd = Inr s'"
    by (simp add: apply_writes_def am s'_def)
  show ?thesis
    using u aw by (simp add: s'_def T_def summ_def mk_def)
qed

lemma apply_writes_single_ledger_ok:
  assumes "ledger_ok (messages s)" and "has_id m" and "cls m \<noteq> RemoveMessage"
  shows "\<exists>s'. apply_writes uuid4 s \<lparr>upd_messages = [m], upd_summary = a, upd_counter = b\<rparr> = Inr s'
           \<and> ledger_ok (messages s')"
  using add_messages_single_ledger_ok [OF assms, of uuid4]
  by (auto simp: apply_writes_def)

lemma ensure_message_has_id_has_id:
  "u \<noteq> [] \<Longrightarrow> msg_id m \<noteq> Some [] \<Longrightarrow> has_id (ensure_message_has_id u m)"
  by (cases "msg_id m") (simp_all add: ensure_message_has_id_def has_id_def)

text \<open>
  The invariant is kept by a run of the graph on a human message, when the ids drawn
  are not empty and the completion client returns messages, not delete directives,
  whose id, if any, is not empty.
\<close>

lemma graph_stream_ledger_ok:
  assumes ok: "ledger_ok (messages s)"
    and h: "has_id h" "cls h \<noteq> RemoveMessage"
    and u: "d_response d \<noteq> []"
    and llm: "\<And>ctx r. llm ctx = Some r \<Longrightarrow> cls r \<noteq> RemoveMessage \<and> msg_id r \<noteq> Some []"
  shows "ledger_ok (messages (checkpoint (graph_stream llm d s
           \<lparr>upd_messages = [h], upd_summary = None, upd_counter = None\<rparr>)))"
proof -
  define inputs where "inputs = \<lparr>upd_messages = [h], upd_summary = None, upd_counter = None\<rparr>"
  obtain s1 where s1: "apply_writes (d_reducer d 0) s inputs = Inr s1"
    and ok1: "ledger_ok (messages s1)"
    using apply_writes_single_ledger_ok [OF ok h] unfolding inputs_def by blast
  show ?thesis
  proof (cases "call_llm_node llm (d_summary d) (d_hello d) (d_response d) s1")
    case (Inl e)
    then show ?thesis
      using s1 ok1 by (simp add: graph_stream_def inputs_def [symmetric])
  next
    case (Inr u1)
    then obtain r where r: "llm (messages_to_send_to_llm (d_summary d) (d_hello d) s1) = Some r"
      and u1: "u1 = \<lparr>upd_messages = [ensure_message_has_id (d_response d) r],
                     upd_summary = None, upd_counter = Some 1\<rparr>"
      using call_llm_node_Inr by blast
    have "has_id (ensure_message_has_id (d_response d) r)"
      using llm [OF r] u by (simp add: ensure_message_has_id_has_id)
    moreover have "cls (ensure_message_has_id (d_response d) r) \<noteq> RemoveMessage"
      using llm [OF r] by (simp add: ensure_message_has_id_fields)
    ultimately obtain s2 where s2: "apply_writes (d_reducer d 1) s1 u1 = Inr s2"
      and ok2: "ledger_ok (messages s2)"
      using apply_writes_single_ledger_ok [OF ok1] unfolding u1 by blast
    show ?thesis
    proof (cases "should_summarize_node s2 = ''summarize_conversation_node''")
      case False
      then show ?thesis
        using s1 Inr s2 ok2 by (simp add: graph_stream_def inputs_def [symmetric])
    next
      case True
      show ?thesis
      proof (cases "summarize_conversation_node llm (d_prompt d) s2")
        case (Inl e)
        then show ?thesis
          using s1 \<open>call_llm_node llm (d_summary d) (d_hello d) (d_response d) s1 = Inr u1\<close>
            s2 ok2 True
          by (simp add: graph_stream_def inputs_def [symmetric])
      next
        case c: (Inr u2)
        obtain s3 where s3: "apply_writes (d_reducer d 2) s2 u2 = Inr s3"
          and m3: "messages s3
                     = [m \<leftarrow> messages s2.
                          m \<notin> set (take (length (messages_to_summarize_content_from s2) - 2)
                                      (messages_to_summarize_content_from s2))]"
          using compaction_ledger [OF ok2 c, of "d_reducer d 2"] by blast
        have "ledger_ok (messages s3)"
          unfolding m3 using ok2 by (rule ledger_ok_filter)
        then show ?thesis
          using s1 \<open>call_llm_node llm (d_summary d) (d_hello d) (d_response d) s1 = Inr u1\<close>
            s2 True c s3
          by (simp add: graph_stream_def inputs_def [symmetric])
      qed
    qed
  qed
qed

lemma new_assistant_ledger_ok:
  assumes "db (d_thread d) = None" and "d_system d \<noteq> []"
    and "new_assistant d db system_prompt = Inr (t, db')"
  shows "\<exists>s. db' t = Some s \<and> ledger_ok (messages s)"
proof -
  have "add_messages uuid4 []
          [ensure_message_has_id (d_system d) (new_message SystemMessage system_prompt)]
          = Inr [\<lparr>cls = SystemMessage, content = system_prompt, msg_id = Some (d_system d)\<rparr>]"
    for uuid4
    using add_messages_Nil_single
      [of "ensure_message_has_id (d_system d) (new_message SystemMessage system_prompt)" uuid4]
    by (simp add: ensure_message_has_id_def new_message_def)
  then show ?thesis
    using assms
    by (auto simp: new_assistant_def update_state_def apply_writes_def empty_channels_def
        Let_def ledger_ok_def has_id_def)
qed

text \<open>The defining equations that evaluate a run of the graph on concrete values.\<close>

lemmas run_defs =
  graph_stream_def apply_writes_def add_messages_def index_by_id_def call_llm_node_def
  messages_to_send_to_llm_def ensure_message_has_id_def new_message_def get_summary_def
  should_summarize_node_def NEW_MESSAGES_THRESHOLD_FOR_SUMMARY_def
  summarize_conversation_node_def delete_directives_def messages_to_remove_def
  messages_to_summarize_content_from_def slice_to_def MESSAGES_TO_KEEP_AFTER_SUMMARY_def
  has_id_def strip_scenario full_prompt_def prompt_header_def formatted_messages_def
  NL_def Let_def

lemmas scenario_defs =
  scenario_draws_def scenario_llm_def failing_llm_def scenario_ledger_def scenario_human_def
  scenario_answer_def scenario_state_def scenario_inputs_def scenario_after_input_def
  scenario_reply_def scenario_after_reply_def scenario_compaction_def chat_inputs_def

section \<open>Creating a session\<close>

text \<open>
  Claim C9. Creating a session under a thread id that has no checkpoint yet, with a
  custom system prompt (\<open>new_assistant\<close>) or with the default one (\<open>new_session\<close>),
  and reading its state back yields exactly one turn, the system message with that
  prompt, an empty summary and a counter of 0.
\<close>

theorem new_session_round_trip:
  assumes "db (d_thread d) = None"
  shows "(\<exists>db'. new_assistant d db system_prompt = Inr (d_thread d, db')
            \<and> get_state db' (d_thread d)
                = Some \<lparr>messages = [\<lparr>cls = SystemMessage, content = system_prompt,
                                       msg_id = Some (d_system d)\<rparr>],
                        summary = Some [], messages_since_last_summary = 0\<rparr>)
       \<and> (\<exists>db'. new_session d db = Inr (d_thread d, db')
            \<and> get_state db' (d_thread d)
                = Some \<lparr>messages = [\<lparr>cls = SystemMessage, content = DEFAULT_SYSTEM_PROMPT,
                                       msg_id = Some (d_system d)\<rparr>],
                        summary = Some [], messages_since_last_summary = 0\<rparr>)"
proof -
  have "add_messages uuid4 [] [ensure_message_has_id (d_system d) (new_message SystemMessage p)]
          = Inr [\<lparr>cls = SystemMessage, content = p, msg_id = Some (d_system d)\<rparr>]" for uuid4 p
    using add_messages_Nil_single
      [of "ensure_message_has_id (d_system d) (new_message SystemMessage p)" uuid4]
    by (simp add: ensure_message_has_id_def new_message_def)
  then show ?thesis
    using assms
    by (simp add: new_assistant_def new_session_def update_state_def apply_writes_def
        empty_channels_def get_state_def Let_def)
qed

theorem new_session_round_trip_witness:
  "(Map.empty :: checkpoints) (d_thread scenario_draws) = None
   \<and> (\<exists>db'. new_assistant scenario_draws Map.empty ''You are terse.'' = Inr (''t-1'', db')
          \<and> get_state db' ''t-1''
              = Some \<lparr>messages = [\<lparr>cls = SystemMessage, content = ''You are terse.'',
                                     msg_id = Some ''m-sys''\<rparr>],
                      summary = Some [], messages_since_last_summary = 0\<rparr>)"
  using new_session_round_trip [of Map.empty scenario_draws "''You are terse.''"]
  by (simp add: scenario_draws_def)

section \<open>The reply node\<close>

text \<open>
  Claim C10. On a state whose summary is empty and whose ledger is empty, the reply
  node sends the completion client the single human message "Hello." and nothing
  else; and on no state at all does it send an empty list.
\<close>

theorem empty_context_sends_hello:
  "(get_summary s = [] \<and> messages s = [] \<longrightarrow>
      messages_to_send_to_llm u_summary u_hello s
        = [\<lparr>cls = HumanMessage, content = ''Hello.'', msg_id = Some u_hello\<rparr>]
      \<and> call_llm_node llm u_summary u_hello u_response s
        = (case llm [\<lparr>cls = HumanMessage, content = ''Hello.'', msg_id = Some u_hello\<rparr>] of
             None \<Rightarrow> Inl CompletionFailed
           | Some response \<Rightarrow>
               Inr \<lparr>upd_messages = [ensure_message_has_id u_response response],
                    upd_summary = None, upd_counter = Some 1\<rparr>))
   \<and> messages_to_send_to_llm u_summary u_hello s \<noteq> []"
  by (simp add: messages_to_send_to_llm_def call_llm_node_def ensure_message_has_id_def
      new_message_def Let_def)

theorem empty_context_sends_hello_witness:
  "get_summary empty_channels = [] \<and> messages empty_channels = []
   \<and> messages_to_send_to_llm ''m-sum'' ''m-hello'' empty_channels
       = [\<lparr>cls = HumanMessage, content = ''Hello.'', msg_id = Some ''m-hello''\<rparr>]
   \<and> call_llm_node scenario_llm ''m-sum'' ''m-hello'' ''m-r'' empty_channels
       = Inr scenario_reply"
  using empty_context_sends_hello
    [of empty_channels "''m-sum''" "''m-hello''" scenario_llm "''m-r''"]
  by (simp add: empty_channels_def get_summary_def scenario_llm_def scenario_reply_def
      scenario_answer_def ensure_message_has_id_def)

text \<open>
  Claim C8. The list the reply node sends to the completion client is the synthetic
  system message "This is a summary of the conversation so far: ..." exactly when the
  summary is not empty, then the whole ledger in order (then the greeting of C10, on
  the empty state only). In a run of the graph the human message has been written to
  the ledger before the node runs, so the list is the synthetic message, if any, and
  the ledger. The update the node returns for the ledger holds the response alone: the
  synthetic message is not written to it.
\<close>

theorem generate_context_prepends_summary:
  "messages_to_send_to_llm u_summary u_hello s
     = (if get_summary s \<noteq> []
        then [\<lparr>cls = SystemMessage,
               content = ''This is a summary of the conversation so far: '' @ get_summary s,
               msg_id = Some u_summary\<rparr>]
        else [])
       @ messages s
       @ (if get_summary s = [] \<and> messages s = []
          then [\<lparr>cls = HumanMessage, content = ''Hello.'', msg_id = Some u_hello\<rparr>]
          else [])
   \<and> (apply_writes uuid4 s0
         \<lparr>upd_messages = [ensure_message_has_id u_human (new_message HumanMessage message)],
          upd_summary = None, upd_counter = None\<rparr> = Inr s \<longrightarrow>
       messages_to_send_to_llm u_summary u_hello s
         = (if get_summary s0 \<noteq> []
            then [\<lparr>cls = SystemMessage,
                   content = ''This is a summary of the conversation so far: '' @ get_summary s0,
                   msg_id = Some u_summary\<rparr>]
            else [])
           @ messages s)
   \<and> (call_llm_node llm u_summary u_hello u_response s = Inr u \<longrightarrow>
       (\<exists>response. llm (messages_to_send_to_llm u_summary u_hello s) = Some response
          \<and> upd_messages u = [ensure_message_has_id u_response response]))"
proof (intro conjI impI)
  show eq: "messages_to_send_to_llm u_summary u_hello s
     = (if get_summary s \<noteq> []
        then [\<lparr>cls = SystemMessage,
               content = ''This is a summary of the conversation so far: '' @ get_summary s,
               msg_id = Some u_summary\<rparr>]
        else [])
       @ messages s
       @ (if get_summary s = [] \<and> messages s = []
          then [\<lparr>cls = HumanMessage, content = ''Hello.'', msg_id = Some u_hello\<rparr>]
          else [])"
    by (simp add: messages_to_send_to_llm_def ensure_message_has_id_def new_message_def Let_def)
  {
    assume a: "apply_writes uuid4 s0
         \<lparr>upd_messages = [ensure_message_has_id u_human (new_message HumanMessage message)],
          upd_summary = None, upd_counter = None\<rparr> = Inr s"
    have "messages s \<noteq> []"
      using a by (rule apply_writes_input_nonempty)
         (simp_all add: ensure_message_has_id_fields new_message_def)
    moreover have "get_summary s = get_summary s0"
      using apply_writes_channels(2) [OF a] by (simp add: get_summary_def)
    ultimately show "messages_to_send_to_llm u_summary u_hello s
         = (if get_summary s0 \<noteq> []
            then [\<lparr>cls = SystemMessage,
                   content = ''This is a summary of the conversation so far: '' @ get_summary s0,
                   msg_id = Some u_summary\<rparr>]
            else [])
           @ messages s"
      using eq by simp
  }
  {
    assume "call_llm_node llm u_summary u_hello u_response s = Inr u"
    then show "\<exists>response. llm (messages_to_send_to_llm u_summary u_hello s) = Some response
          \<and> upd_messages u = [ensure_message_has_id u_response response]"
      using call_llm_node_Inr by fastforce
  }
qed

theorem generate_context_prepends_summary_witness:
  "apply_writes (d_reducer scenario_draws 0) (scenario_state ''so far'' 3)
      \<lparr>upd_messages = [ensure_message_has_id ''m-h'' (new_message HumanMessage ''More'')],
       upd_summary = None, upd_counter = None\<rparr> = Inr (scenario_after_input ''so far'' 3)
   \<and> call_llm_node scenario_llm ''m-sum'' ''m-hello'' ''m-r'' (scenario_after_input ''so far'' 3)
       = Inr scenario_reply
   \<and> messages_to_send_to_llm ''m-sum'' ''m-hello'' (scenario_after_input ''so far'' 3)
       = \<lparr>cls = SystemMessage,
           content = ''This is a summary of the conversation so far: so far'',
           msg_id = Some ''m-sum''\<rparr> # scenario_ledger @ [scenario_human]
   \<and> upd_messages scenario_reply = [scenario_answer]"
  using generate_context_prepends_summary
    [where s = "scenario_after_input ''so far'' 3" and ?s0.0 = "scenario_state ''so far'' 3"
       and ?uuid4.0 = "d_reducer scenario_draws 0" and u_human = "''m-h''"
       and message = "''More''" and u_summary = "''m-sum''" and u_hello = "''m-hello''"
       and u_response = "''m-r''" and llm = scenario_llm and u = scenario_reply]
  by (simp add: run_defs scenario_defs)

section \<open>Routing after the reply\<close>

text \<open>
  Claim C5. After the reply node, \<open>should_summarize_node\<close> names the summarisation
  node exactly when the counter is at least 10, and the end of the run otherwise. In
  the run of the graph this means: when the counter after the reply is at least 10, the
  run continues with the summarisation node; otherwise it ends there, having streamed
  the update of the reply node, which holds the assistant message, and nothing else.
\<close>

theorem decide_routes_on_threshold:
  "(should_summarize_node s = ''summarize_conversation_node''
      \<longleftrightarrow> messages_since_last_summary s \<ge> 10)
   \<and> (should_summarize_node s = ''__end__'' \<longleftrightarrow> messages_since_last_summary s < 10)
   \<and> (apply_writes (d_reducer d 0) s0 inputs = Inr s1
        \<and> call_llm_node llm (d_summary d) (d_hello d) (d_response d) s1 = Inr u1
        \<and> apply_writes (d_reducer d 1) s1 u1 = Inr s \<longrightarrow>
        (if messages_since_last_summary s \<ge> 10
         then graph_stream llm d s0 inputs
              = (case summarize_conversation_node llm (d_prompt d) s of
                   Inl e \<Rightarrow> \<lparr>outcome = Some e, events = [(''llm_caller'', u1)], checkpoint = s\<rparr>
                 | Inr u2 \<Rightarrow>
                     (case apply_writes (d_reducer d 2) s u2 of
                        Inl e \<Rightarrow> \<lparr>outcome = Some e, events = [(''llm_caller'', u1)],
                                   checkpoint = s\<rparr>
                      | Inr s3 \<Rightarrow> \<lparr>outcome = None,
                                    events = [(''llm_caller'', u1),
                                              (''summarize_conversation_node'', u2)],
                                    checkpoint = s3\<rparr>))
         else graph_stream llm d s0 inputs
              = \<lparr>outcome = None, events = [(''llm_caller'', u1)], checkpoint = s\<rparr>))"
  by (simp add: should_summarize_node_def NEW_MESSAGES_THRESHOLD_FOR_SUMMARY_def
      graph_stream_def)

theorem decide_routes_on_threshold_witness:
  "apply_writes (d_reducer scenario_draws 0) (scenario_state [] 9) scenario_inputs
     = Inr (scenario_after_input [] 9)
   \<and> call_llm_node scenario_llm ''m-sum'' ''m-hello'' ''m-r'' (scenario_after_input [] 9)
     = Inr scenario_reply
   \<and> apply_writes (d_reducer scenario_draws 1) (scenario_after_input [] 9) scenario_reply
     = Inr (scenario_after_reply [] 10)
   \<and> should_summarize_node (scenario_after_reply [] 10) = ''summarize_conversation_node''
   \<and> map fst (events (graph_stream scenario_llm scenario_draws (scenario_state [] 9)
                         scenario_inputs))
     = [''llm_caller'', ''summarize_conversation_node'']
   \<and> apply_writes (d_reducer scenario_draws 1) (scenario_after_input [] 8) scenario_reply
     = Inr (scenario_after_reply [] 9)
   \<and> should_summarize_node (scenario_after_reply [] 9) = ''__end__''
   \<and> graph_stream scenario_llm scenario_draws (scenario_state [] 8) scenario_inputs
     = \<lparr>outcome = None, events = [(''llm_caller'', scenario_reply)],
        checkpoint = scenario_after_reply [] 9\<rparr>"
  using decide_routes_on_threshold
    [where s = "scenario_after_reply [] 10" and d = scenario_draws
       and ?s0.0 = "scenario_state [] 9" and inputs = scenario_inputs
       and ?s1.0 = "scenario_after_input [] 9" and llm = scenario_llm and ?u1.0 = scenario_reply]
    decide_routes_on_threshold
    [where s = "scenario_after_reply [] 9" and d = scenario_draws
       and ?s0.0 = "scenario_state [] 8" and inputs = scenario_inputs
       and ?s1.0 = "scenario_after_input [] 8" and llm = scenario_llm and ?u1.0 = scenario_reply]
  by (simp add: run_defs scenario_defs)

section \<open>The counter\<close>

text \<open>
  Claim C6. When a run of the graph on a chat turn succeeds and only the reply node has
  run (the run did not go on to the summarisation node), the counter of the state it
  stores is the counter of the state it started from plus 1.
\<close>

theorem counter_increments_without_compaction:
  assumes "outcome (graph_stream llm d s (chat_inputs d user_input)) = None"
    and "map fst (events (graph_stream llm d s (chat_inputs d user_input))) = [''llm_caller'']"
  shows "messages_since_last_summary (checkpoint (graph_stream llm d s (chat_inputs d user_input)))
           = messages_since_last_summary s + 1"
proof -
  define r where "r = graph_stream llm d s (chat_inputs d user_input)"
  obtain s1 u1 where s1: "apply_writes (d_reducer d 0) s (chat_inputs d user_input) = Inr s1"
    and u1: "call_llm_node llm (d_summary d) (d_hello d) (d_response d) s1 = Inr u1"
    and s2: "apply_writes (d_reducer d 1) s1 u1 = Inr (checkpoint r)"
    using graph_stream_ended_after_reply [OF assms] unfolding r_def by blast
  have "messages_since_last_summary s1 = messages_since_last_summary s"
    using apply_writes_channels(3) [OF s1] by (simp add: chat_inputs_def)
  moreover have "upd_counter u1 = Some 1"
    using call_llm_node_Inr [OF u1] by auto
  ultimately have "messages_since_last_summary (checkpoint r) = messages_since_last_summary s + 1"
    using apply_writes_channels(3) [OF s2] by simp
  then show ?thesis
    by (simp add: r_def)
qed

theorem counter_increments_without_compaction_witness:
  "graph_stream scenario_llm scenario_draws (scenario_state [] 3)
      (chat_inputs scenario_draws ''More'')
     = \<lparr>outcome = None, events = [(''llm_caller'', scenario_reply)],
        checkpoint = scenario_after_reply [] 4\<rparr>
   \<and> messages_since_last_summary (scenario_after_reply [] 4)
     = messages_since_last_summary (scenario_state [] 3) + 1"
proof -
  have g: "graph_stream scenario_llm scenario_draws (scenario_state [] 3)
             (chat_inputs scenario_draws ''More'')
           = \<lparr>outcome = None, events = [(''llm_caller'', scenario_reply)],
              checkpoint = scenario_after_reply [] 4\<rparr>"
    by (simp add: run_defs scenario_defs)
  have o: "outcome (graph_stream scenario_llm scenario_draws (scenario_state [] 3)
                      (chat_inputs scenario_draws ''More'')) = None"
    by (simp add: g)
  have e: "map fst (events (graph_stream scenario_llm scenario_draws (scenario_state [] 3)
                              (chat_inputs scenario_draws ''More''))) = [''llm_caller'']"
    by (simp add: g)
  show ?thesis
    using counter_increments_without_compaction [OF o e] g by simp
qed

text \<open>
  Claim C2. The claim says that a failed completion call leaves the stored state as it
  was. In the scenario, the run of the graph on the chat turn fails with
  \<open>CompletionFailed\<close>, and the state it has stored is not the state before: it holds
  the human message.
\<close>

theorem completion_failure_counterexample:
  "outcome (graph_stream failing_llm scenario_draws (scenario_state [] 3)
              (chat_inputs scenario_draws ''More'')) = Some CompletionFailed
   \<and> checkpoint (graph_stream failing_llm scenario_draws (scenario_state [] 3)
                    (chat_inputs scenario_draws ''More'')) = scenario_after_input [] 3
   \<and> scenario_after_input [] 3 \<noteq> scenario_state [] 3"
  by (simp add: run_defs scenario_defs)

text \<open>
  Claim C2, amended. When the completion call of the reply node fails, the run of the
  graph on the chat turn fails with \<open>CompletionFailed\<close> and streams nothing; the
  stored summary and counter are those from before, and the stored ledger is the
  ledger from before merged with the human message and with nothing else, so no
  assistant message has been added. With ids present and the human message's id new,
  the ledger is the old one with the human message appended.
\<close>

theorem completion_failure_keeps_user_turn:
  assumes "apply_writes (d_reducer d 0) s (chat_inputs d user_input) = Inr s1"
    and "llm (messages_to_send_to_llm (d_summary d) (d_hello d) s1) = None"
  shows "graph_stream llm d s (chat_inputs d user_input)
           = \<lparr>outcome = Some CompletionFailed, events = [], checkpoint = s1\<rparr>
         \<and> summary s1 = summary s
         \<and> messages_since_last_summary s1 = messages_since_last_summary s
         \<and> add_messages (d_reducer d 0) (messages s)
              [\<lparr>cls = HumanMessage, content = user_input, msg_id = Some (d_human d)\<rparr>]
             = Inr (messages s1)
         \<and> ((\<forall>m\<in>set (messages s). msg_id m \<noteq> None)
              \<and> Some (d_human d) \<notin> msg_id ` set (messages s) \<longrightarrow>
            messages s1
              = messages s
                @ [\<lparr>cls = HumanMessage, content = user_input, msg_id = Some (d_human d)\<rparr>])"
proof -
  have h: "chat_inputs d user_input
             = \<lparr>upd_messages =
                  [\<lparr>cls = HumanMessage, content = user_input, msg_id = Some (d_human d)\<rparr>],
                upd_summary = None, upd_counter = None\<rparr>"
    by (simp add: chat_inputs_def ensure_message_has_id_def new_message_def)
  have g: "graph_stream llm d s (chat_inputs d user_input)
           = \<lparr>outcome = Some CompletionFailed, events = [], checkpoint = s1\<rparr>"
    using assms by (simp add: graph_stream_def call_llm_node_def)
  have am: "add_messages (d_reducer d 0) (messages s)
              [\<lparr>cls = HumanMessage, content = user_input, msg_id = Some (d_human d)\<rparr>]
             = Inr (messages s1)"
    using apply_writes_channels(1) [OF assms(1)] by (simp add: h)
  have "messages s1
          = messages s
            @ [\<lparr>cls = HumanMessage, content = user_input, msg_id = Some (d_human d)\<rparr>]"
    if "\<forall>m\<in>set (messages s). msg_id m \<noteq> None"
      and "Some (d_human d) \<notin> msg_id ` set (messages s)"
    using add_messages_append_fresh
      [of "messages s"
          "\<lparr>cls = HumanMessage, content = user_input, msg_id = Some (d_human d)\<rparr>"
          "d_reducer d 0"] that am
    by simp
  then show ?thesis
    using g am apply_writes_channels(2,3) [OF assms(1)] by (simp add: h)
qed

theorem completion_failure_keeps_user_turn_witness:
  "apply_writes (d_reducer scenario_draws 0) (scenario_state [] 3)
      (chat_inputs scenario_draws ''More'') = Inr (scenario_after_input [] 3)
   \<and> failing_llm (messages_to_send_to_llm (d_summary scenario_draws) (d_hello scenario_draws)
                     (scenario_after_input [] 3)) = None
   \<and> graph_stream failing_llm scenario_draws (scenario_state [] 3)
        (chat_inputs scenario_draws ''More'')
       = \<lparr>outcome = Some CompletionFailed, events = [],
          checkpoint = scenario_after_input [] 3\<rparr>
   \<and> messages (scenario_after_input [] 3) = messages (scenario_state [] 3) @ [scenario_human]
   \<and> summary (scenario_after_input [] 3) = summary (scenario_state [] 3)
   \<and> messages_since_last_summary (scenario_after_input [] 3) = 3"
proof -
  have a: "apply_writes (d_reducer scenario_draws 0) (scenario_state [] 3)
             (chat_inputs scenario_draws ''More'') = Inr (scenario_after_input [] 3)"
    by (simp add: run_defs scenario_defs)
  have f: "failing_llm (messages_to_send_to_llm (d_summary scenario_draws)
                          (d_hello scenario_draws) (scenario_after_input [] 3)) = None"
    by (simp add: failing_llm_def)
  show ?thesis
    using completion_failure_keeps_user_turn [where llm = failing_llm, OF a f] a f
    by (simp add: scenario_defs)
qed

section \<open>Compaction\<close>

text \<open>
  Claim C3. On a state whose ledger satisfies its invariant (every message carries a
  non-empty id and the ids are pairwise distinct), a successful summarisation node
  returns one delete directive for each summarisable message except the last two, by
  its id and in order; applying its update removes exactly those messages from the
  ledger, and the summarisable messages that remain are the last two.
\<close>

theorem compaction_tombstones_all_but_last_two:
  assumes "ledger_ok (messages s)"
    and "summarize_conversation_node llm u_prompt s = Inr upd"
  shows "upd_messages upd
           = map (\<lambda>m. \<lparr>cls = RemoveMessage, content = [], msg_id = msg_id m\<rparr>)
               (take (length (messages_to_summarize_content_from s) - 2)
                  (messages_to_summarize_content_from s))
         \<and> (\<exists>s'. apply_writes uuid4 s upd = Inr s'
               \<and> messages s'
                   = [m \<leftarrow> messages s.
                        m \<notin> set (take (length (messages_to_summarize_content_from s) - 2)
                                    (messages_to_summarize_content_from s))]
               \<and> messages_to_summarize_content_from s'
                   = drop (length (messages_to_summarize_content_from s) - 2)
                       (messages_to_summarize_content_from s))"
proof -
  define summ where "summ = messages_to_summarize_content_from s"
  define T where "T = take (length summ - 2) summ"
  obtain s' where aw: "apply_writes uuid4 s upd = Inr s'"
    and m: "messages s' = [m \<leftarrow> messages s. m \<notin> set T]"
    using compaction_ledger [OF assms, of uuid4] unfolding T_def summ_def by blast
  have "distinct (messages s)"
    using assms(1) by (simp add: ledger_ok_def distinct_map)
  then have "distinct summ"
    by (simp add: summ_def messages_to_summarize_content_from_def)
  then have "[m \<leftarrow> summ. m \<notin> set T] = drop (length summ - 2) summ"
    unfolding T_def by (rule filter_not_in_take)
  moreover have "messages_to_summarize_content_from s' = [m \<leftarrow> summ. m \<notin> set T]"
    by (simp add: messages_to_summarize_content_from_def m summ_def conj_commute)
  ultimately have "messages_to_summarize_content_from s' = drop (length summ - 2) summ"
    by simp
  then show ?thesis
    using compaction_ledger [OF assms, of uuid4] aw m by (simp add: T_def summ_def)
qed

theorem compaction_tombstones_all_but_last_two_witness:
  "map has_id (messages (scenario_after_reply [] 10)) = [True, True, True, True, True]
   \<and> distinct (map msg_id (messages (scenario_after_reply [] 10)))
   \<and> summarize_conversation_node scenario_llm ''m-p'' (scenario_after_reply [] 10)
       = Inr scenario_compaction
   \<and> upd_messages scenario_compaction
       = [\<lparr>cls = RemoveMessage, content = [], msg_id = Some ''m-sys''\<rparr>,
          \<lparr>cls = RemoveMessage, content = [], msg_id = Some ''m-1''\<rparr>,
          \<lparr>cls = RemoveMessage, content = [], msg_id = Some ''m-2''\<rparr>]
   \<and> (\<exists>s'. apply_writes (d_reducer scenario_draws 2) (scenario_after_reply [] 10)
               scenario_compaction = Inr s'
          \<and> messages s' = [scenario_human, scenario_answer]
          \<and> messages_to_summarize_content_from s' = [scenario_human, scenario_answer])"
proof -
  have i: "ledger_ok (messages (scenario_after_reply [] 10))"
    by (simp add: ledger_ok_def scenario_defs has_id_def)
  have c: "summarize_conversation_node scenario_llm ''m-p'' (scenario_after_reply [] 10)
             = Inr scenario_compaction"
    by (simp add: run_defs scenario_defs)
  show ?thesis
    using compaction_tombstones_all_but_last_two
      [OF i c, of "d_reducer scenario_draws 2"] c
    by (simp add: scenario_defs messages_to_summarize_content_from_def has_id_def)
qed

text \<open>
  Claim C1. The comment in the summarisation node says the counter is reset to the
  number of messages kept. The node returns that number, but the channel adds what a
  node returns to the value it holds. In the scenario the summarisation node runs at a
  counter of 10 and returns 2 for the two messages kept; the ledger stored afterwards
  holds 2 messages and the counter stored is 12.
\<close>

theorem compaction_counter_not_reset:
  "summarize_conversation_node scenario_llm ''m-p'' (scenario_after_reply [] 10)
     = Inr scenario_compaction
   \<and> checkpoint (graph_stream scenario_llm scenario_draws (scenario_state [] 9) scenario_inputs)
     = \<lparr>messages = [scenario_human, scenario_answer], summary = Some ''ok'',
        messages_since_last_summary = 12\<rparr>
   \<and> length (messages (checkpoint (graph_stream scenario_llm scenario_draws
                                      (scenario_state [] 9) scenario_inputs))) = 2
   \<and> messages_since_last_summary
         (checkpoint (graph_stream scenario_llm scenario_draws (scenario_state [] 9)
                        scenario_inputs)) = 12"
  by (simp add: run_defs scenario_defs)

text \<open>
  Claim C4. The claim has the prompt start with "Previous Summary: " and the summary,
  on one line, and has each turn rendered with its role. In the scenario with the
  summary "old" the prompt does not start so, and the turns are rendered with the
  names of their classes.
\<close>

theorem fold_prompt_counterexample:
  "get_summary (scenario_state ''old'' 10) = ''old''
   \<and> \<not> prefix (''Previous Summary: '' @ get_summary (scenario_state ''old'' 10))
          (full_prompt (scenario_state ''old'' 10))
   \<and> formatted_messages (scenario_state ''old'' 10)
       = ''SystemMessage: You are terse.'' @ NL @ ''HumanMessage: Hi'' @ NL @ ''AIMessage: Hello''"
  by (simp add: run_defs scenario_defs)

text \<open>
  Claim C4, amended. The prompt of the summarisation node is: when the summary is not
  empty, "Previous Summary:", a line feed, the summary, two line feeds and the header
  "Please extend this summary with the new conversation excerpts below." with a line
  feed; when it is empty, the header "Please create a concise summary of the following
  conversation:" with a line feed; then, in both cases, the human, AI and system
  messages of the ledger in order, each as its class name, ": " and its content,
  separated by line feeds. It is sent as one human message, and the new summary is the
  content of the response stripped: what \<open>strip\<close> removes from a text is a run of
  white-space characters at each of its two ends, and what it leaves neither starts
  nor ends with a white-space character.
\<close>

theorem fold_prompt_shape:
  "full_prompt s
     = (if get_summary s \<noteq> []
        then ''Previous Summary:'' @ NL @ get_summary s @ NL @ NL
             @ ''Please extend this summary with the new conversation excerpts below.'' @ NL
        else ''Please create a concise summary of the following conversation:'' @ NL)
       @ join NL (map (\<lambda>m. class_name (cls m) @ '': '' @ content m)
                    [m \<leftarrow> messages s.
                       cls m = HumanMessage \<or> cls m = AIMessage \<or> cls m = SystemMessage])
   \<and> (summarize_conversation_node llm u_prompt s = Inr upd \<longrightarrow>
        (\<exists>response.
           llm [\<lparr>cls = HumanMessage, content = full_prompt s, msg_id = Some u_prompt\<rparr>]
             = Some response
           \<and> upd_summary upd = Some (strip (content response))))
   \<and> (\<exists>ws ws'. set ws \<subseteq> set whitespace \<and> set ws' \<subseteq> set whitespace
          \<and> t = concat ws @ strip t @ concat ws')
   \<and> (\<forall>w\<in>set whitespace. \<not> prefix w (strip t) \<and> \<not> suffix w (strip t))"
proof (intro conjI impI)
  show "full_prompt s
     = (if get_summary s \<noteq> []
        then ''Previous Summary:'' @ NL @ get_summary s @ NL @ NL
             @ ''Please extend this summary with the new conversation excerpts below.'' @ NL
        else ''Please create a concise summary of the following conversation:'' @ NL)
       @ join NL (map (\<lambda>m. class_name (cls m) @ '': '' @ content m)
                    [m \<leftarrow> messages s.
                       cls m = HumanMessage \<or> cls m = AIMessage \<or> cls m = SystemMessage])"
    by (simp add: full_prompt_def prompt_header_def formatted_messages_def
        messages_to_summarize_content_from_def Let_def)
  show "\<exists>ws ws'. set ws \<subseteq> set whitespace \<and> set ws' \<subseteq> set whitespace
          \<and> t = concat ws @ strip t @ concat ws'"
    by (rule strip_decomp)
  show "\<forall>w\<in>set whitespace. \<not> prefix w (strip t) \<and> \<not> suffix w (strip t)"
    by (rule strip_edges)
  {
    assume "summarize_conversation_node llm u_prompt s = Inr upd"
    then show "\<exists>response.
           llm [\<lparr>cls = HumanMessage, content = full_prompt s, msg_id = Some u_prompt\<rparr>]
             = Some response
           \<and> upd_summary upd = Some (strip (content response))"
      using summarize_conversation_node_Inr by fastforce
  }
qed

theorem fold_prompt_shape_witness:
  "summarize_conversation_node scenario_llm ''m-p'' (scenario_state ''old'' 10)
     = Inr \<lparr>upd_messages = [\<lparr>cls = RemoveMessage, content = [], msg_id = Some ''m-sys''\<rparr>],
            upd_summary = Some ''ok'', upd_counter = Some 2\<rparr>
   \<and> strip '' ok '' = ''ok''
   \<and> strip [CHR 0xC2, CHR 0xA0, CHR ''o'', CHR ''k'', CHR 0xC2, CHR 0x85] = ''ok''
   \<and> full_prompt (scenario_state ''old'' 10)
       = ''Previous Summary:'' @ NL @ ''old'' @ NL @ NL
         @ ''Please extend this summary with the new conversation excerpts below.'' @ NL
         @ ''SystemMessage: You are terse.'' @ NL @ ''HumanMessage: Hi'' @ NL
         @ ''AIMessage: Hello''
   \<and> scenario_llm [\<lparr>cls = HumanMessage, content = full_prompt (scenario_state ''old'' 10),
                      msg_id = Some ''m-p''\<rparr>]
       = Some \<lparr>cls = AIMessage, content = '' ok '', msg_id = None\<rparr>
   \<and> \<not> prefix '' '' (strip '' ok '') \<and> \<not> suffix '' '' (strip '' ok '')"
proof -
  have c: "summarize_conversation_node scenario_llm ''m-p'' (scenario_state ''old'' 10)
     = Inr \<lparr>upd_messages = [\<lparr>cls = RemoveMessage, content = [], msg_id = Some ''m-sys''\<rparr>],
            upd_summary = Some ''ok'', upd_counter = Some 2\<rparr>"
    by (simp add: run_defs scenario_defs)
  have t: "strip '' ok '' = ''ok''"
    by (rule strip_scenario)
  have n: "strip [CHR 0xC2, CHR 0xA0, CHR ''o'', CHR ''k'', CHR 0xC2, CHR 0x85] = ''ok''"
    by code_simp
  have w: "'' '' \<in> set whitespace"
    by (simp add: whitespace_def)
  show ?thesis
    using fold_prompt_shape
      [where s = "scenario_state ''old'' 10" and llm = scenario_llm and u_prompt = "''m-p''"
         and upd = "\<lparr>upd_messages = [\<lparr>cls = RemoveMessage, content = [],
                                         msg_id = Some ''m-sys''\<rparr>],
                      upd_summary = Some ''ok'', upd_counter = Some 2\<rparr>"
         and t = "'' ok ''"] c t n w
    by (simp add: scenario_defs get_summary_def scenario_llm_def NL_def)
qed

end
